theory Spec2Isabelle
  imports Complex_Main
begin

section \<open>Data model of \<open>LiveMusicHelper\<close>\<close>

text \<open>
  The engine lives in the class \<open>LiveMusicHelper\<close> (second document of
  \<open>src/components/FxPad.ts\<close>) and in the class \<open>AudioEffects\<close>
  (\<open>src/unnamed/part_002\<close>). JavaScript numbers are modelled as \<open>real\<close>:
  the rounding of IEEE doubles is not part of the model. The audio clock
  \<open>audioContext.currentTime\<close> is an input \<open>now\<close> of every function that reads it.
\<close>

datatype PlaybackState = stopped | loading | playing | paused

text \<open>
  \<open>Prompt\<close> is declared in \<open>../types\<close>, which is not among the sources. The
  helper reads the fields \<open>text\<close> (here \<open>prompt_text\<close>) and \<open>weight\<close>; the keys
  of the prompt map are the \<open>promptId\<close>s.
\<close>

record Prompt =
  promptId :: string
  prompt_text :: string
  weight :: real

text \<open>An \<open>AudioChunk\<close> of the session: \<open>data\<close> may be absent.\<close>

record AudioChunk =
  data :: "string option"

text \<open>The detail of the three \<open>error\<close> events the helper dispatches.\<close>

datatype error_detail =
    Retrying nat nat          \<comment> \<open>Connection interrupted. Retrying... (attempts/max)\<close>
  | Unable_to_maintain        \<comment> \<open>Unable to maintain connection. Please check ...\<close>
  | Add_active_prompt         \<comment> \<open>Add an active prompt to start music.\<close>

text \<open>Events dispatched on the helper (it is an \<open>EventTarget\<close>), in order.\<close>

datatype event =
    playback_state_changed PlaybackState
  | error_event error_detail
  | filtered_prompt_event string
  | recording_state_changed bool

text \<open>Callbacks handed to \<open>setTimeout\<close>, with their delay in milliseconds.\<close>

datatype timer_callback = retry_play | preroll_done | throttle_elapsed

text \<open>A buffer source started on the audio graph: \<open>source.start(when)\<close>.\<close>

record source_node =
  start_when :: real
  buffer_duration :: real
  source_rate :: real

text \<open>Calls made on the session collaborator and on the recorder.\<close>

datatype upstream_call =
    open_session
  | session_setWeightedPrompts "Prompt list"
  | session_play
  | session_pause
  | session_stop

datatype recorder_call = recorder_created | recorder_start | recorder_stop

text \<open>Operations on the output gain and on the routing of the master bus.\<close>

datatype graph_op =
    gain_setValueAtTime real real
  | gain_linearRampToValueAtTime real real
  | context_resume
  | master_connect_destination
  | master_connect_extra
  | master_connect_stream

type_synonym session_handle = nat

text \<open>
  The fields of \<open>LiveMusicHelper\<close> that the modelled methods read or write.
  \<open>sessionPromise\<close>, \<open>mediaRecorder\<close> and \<open>extraDestination\<close> record whether the
  field is non-null. After the fields come the logs of the effects of the
  methods, each in order: the events dispatched, the timers armed, the sources
  started, the calls on the session, on the recorder and on the audio graph.
  \<open>throttle_pending\<close> is the state kept by the throttle around
  \<open>setWeightedPrompts\<close>.
\<close>

record helper =
  session :: "session_handle option"
  sessionPromise :: bool
  filteredPrompts :: "string set"
  nextStartTime :: real
  playbackState :: PlaybackState
  prompts :: "(string \<times> Prompt) list"
  isRecording :: bool
  mediaRecorder :: bool
  playbackRate :: real
  isTryingToConnectOrPlay :: bool
  reconnectAttempts :: nat
  events :: "event list"
  timers :: "(timer_callback \<times> real) list"
  started :: "source_node list"
  upstream :: "upstream_call list"
  recorder :: "recorder_call list"
  graph :: "graph_op list"
  extraDestination :: bool
  recordedChunks :: "nat list"
  throttle_pending :: "(string \<times> Prompt) list option"

text \<open>\<open>private bufferTime = 2.5\<close> and \<open>private maxReconnectAttempts = 5\<close>: never assigned again.\<close>

definition bufferTime :: real where
  "bufferTime = 2.5"

definition maxReconnectAttempts :: nat where
  "maxReconnectAttempts = 5"

text \<open>The field initialisers and the constructor.\<close>

definition new_helper :: helper where
  "new_helper =
     \<lparr> session = None, sessionPromise = False, filteredPrompts = {},
       nextStartTime = 0, playbackState = stopped, prompts = [],
       isRecording = False, mediaRecorder = False, playbackRate = 1,
       isTryingToConnectOrPlay = False, reconnectAttempts = 0,
       events = [], timers = [], started = [], upstream = [], recorder = [],
       graph = [], extraDestination = False, recordedChunks = [],
       throttle_pending = None \<rparr>"

definition dispatchEvent :: "event \<Rightarrow> helper \<Rightarrow> helper" where
  "dispatchEvent e s = s\<lparr>events := events s @ [e]\<rparr>"

definition setTimeout :: "timer_callback \<Rightarrow> real \<Rightarrow> helper \<Rightarrow> helper" where
  "setTimeout cb delay s = s\<lparr>timers := timers s @ [(cb, delay)]\<rparr>"

definition setPlaybackState :: "PlaybackState \<Rightarrow> helper \<Rightarrow> helper" where
  "setPlaybackState st s =
     dispatchEvent (playback_state_changed st) (s\<lparr>playbackState := st\<rparr>)"

section \<open>Playback scheduler: \<open>processAudioChunk\<close>\<close>

text \<open>
  The guard at the head of \<open>processAudioChunk\<close>:
  \<open>playbackState === 'paused' || playbackState === 'stopped' || !chunk.data\<close>.
  An absent and an empty \<open>data\<close> are both falsy.
\<close>

definition chunk_dropped :: "helper \<Rightarrow> AudioChunk \<Rightarrow> bool" where
  "chunk_dropped s c \<longleftrightarrow>
     playbackState s = paused \<or> playbackState s = stopped
     \<or> data c = None \<or> data c = Some []"

text \<open>\<open>if (nextStartTime < now - 0.5) nextStartTime = now + 0.1\<close>\<close>

definition resync :: "real \<Rightarrow> helper \<Rightarrow> helper" where
  "resync now s =
     (if nextStartTime s < now - 0.5 then s\<lparr>nextStartTime := now + 0.1\<rparr> else s)"

text \<open>
  \<open>if (playbackState === 'loading') { nextStartTime = now + bufferTime;
  setTimeout(..., bufferTime * 1000) }\<close>
\<close>

definition preroll :: "real \<Rightarrow> helper \<Rightarrow> helper" where
  "preroll now s =
     (if playbackState s = loading
      then setTimeout preroll_done (bufferTime * 1000)
             (s\<lparr>nextStartTime := now + bufferTime\<rparr>)
      else s)"

text \<open>\<open>source.start(nextStartTime); nextStartTime += audioBuffer.duration\<close>\<close>

definition start_source :: "real \<Rightarrow> helper \<Rightarrow> helper" where
  "start_source d s =
     s\<lparr>started := started s @
          [\<lparr>start_when = nextStartTime s, buffer_duration = d,
            source_rate = playbackRate s\<rparr>],
       nextStartTime := nextStartTime s + d\<rparr>"

text \<open>
  The part of \<open>processAudioChunk\<close> after \<open>await decodeAudioData(...)\<close>, which runs
  without interruption: \<open>d\<close> is the duration of the decoded buffer, \<open>now\<close> the
  audio clock read there.
\<close>

definition schedule_decoded :: "real \<Rightarrow> real \<Rightarrow> helper \<Rightarrow> helper" where
  "schedule_decoded d now s = start_source d (preroll now (resync now s))"

text \<open>
  \<open>processAudioChunk\<close>. \<open>decodeAudioData\<close> is imported from \<open>./audio\<close>; its result
  is the parameter \<open>dec\<close>: the duration of the decoded buffer, or \<open>None\<close> when
  decoding throws (nothing is scheduled then). The guard and the part after
  the \<open>await\<close> are run here on the same state, with nothing else running while
  the chunk is decoded; what is proved of \<open>schedule_decoded\<close> for every state
  does not depend on that.
\<close>

definition processAudioChunk ::
  "AudioChunk \<Rightarrow> real option \<Rightarrow> real \<Rightarrow> helper \<Rightarrow> helper" where
  "processAudioChunk c dec now s =
     (if chunk_dropped s c then s
      else case dec of None \<Rightarrow> s | Some d \<Rightarrow> schedule_decoded d now s)"

text \<open>The callback of the pre-roll timer.\<close>

definition preroll_timer_fired :: "helper \<Rightarrow> helper" where
  "preroll_timer_fired s =
     (if playbackState s = loading then setPlaybackState playing s else s)"

text \<open>
  Successive calls of \<open>processAudioChunk\<close>, one per chunk, each with its
  decoding result and the clock at the time it is scheduled. A chunk whose
  decoding throws leaves the state as it is.
\<close>

fun ingest :: "(AudioChunk \<times> real option \<times> real) list \<Rightarrow> helper \<Rightarrow> helper" where
  "ingest [] s = s"
| "ingest ((c, dec, now) # xs) s = ingest xs (processAudioChunk c dec now s)"

text \<open>A chunk that carries data and decodes to a buffer of positive duration.\<close>

definition playable :: "AudioChunk \<times> real option \<times> real \<Rightarrow> bool" where
  "playable x \<longleftrightarrow>
     (case x of (c, dec, now) \<Rightarrow>
        data c \<noteq> None \<and> data c \<noteq> Some [] \<and>
        (case dec of None \<Rightarrow> False | Some d \<Rightarrow> 0 < d))"

definition ingest_time :: "AudioChunk \<times> real option \<times> real \<Rightarrow> real" where
  "ingest_time x = snd (snd x)"

text \<open>The sources started between the states \<open>s\<close> and \<open>s'\<close>.\<close>

definition newly_started :: "helper \<Rightarrow> helper \<Rightarrow> source_node list" where
  "newly_started s s' = drop (length (started s)) (started s')"

text \<open>
  What the scheduler owes to neighbouring buffers: the later one starts
  strictly later, and it starts where the earlier one ends unless that end
  lies more than 0.5 s behind the clock of its ingest, in which case it
  starts 0.1 s after that clock.
\<close>

definition adjacent_ok ::
  "(AudioChunk \<times> real option \<times> real) list \<Rightarrow> source_node list \<Rightarrow> bool" where
  "adjacent_ok xs bs \<longleftrightarrow>
     (\<forall>i. Suc i < length xs \<longrightarrow>
        start_when (bs ! i) < start_when (bs ! Suc i) \<and>
        (start_when (bs ! Suc i) = start_when (bs ! i) + buffer_duration (bs ! i) \<or>
         start_when (bs ! i) + buffer_duration (bs ! i) < ingest_time (xs ! Suc i) - 0.5 \<and>
         start_when (bs ! Suc i) = ingest_time (xs ! Suc i) + 0.1))"

section \<open>Connection manager\<close>

text \<open>
  \<open>get activePrompts\<close>: the values of the \<open>prompts\<close> map, in insertion order,
  that are not filtered and have a positive weight.
\<close>

definition activePrompts :: "helper \<Rightarrow> Prompt list" where
  "activePrompts s =
     filter (\<lambda>p. prompt_text p \<notin> filteredPrompts s \<and> 0 < weight p)
       (map snd (prompts s))"

text \<open>\<open>stopRecording\<close>: \<open>if (mediaRecorder) mediaRecorder.stop()\<close>\<close>

definition stopRecording :: "helper \<Rightarrow> helper" where
  "stopRecording s =
     (if mediaRecorder s then s\<lparr>recorder := recorder s @ [recorder_stop]\<rparr> else s)"

text \<open>\<open>stop()\<close>. A throw of \<open>session.stop()\<close> is swallowed by the \<open>try\<close>.\<close>

definition stop :: "real \<Rightarrow> helper \<Rightarrow> helper" where
  "stop now s =
     (let s1 = s\<lparr>isTryingToConnectOrPlay := False\<rparr>;
          s2 = (if isRecording s1 then stopRecording s1 else s1);
          s3 = (if session s2 \<noteq> None
                then s2\<lparr>upstream := upstream s2 @ [session_stop]\<rparr> else s2);
          s4 = setPlaybackState stopped s3;
          s5 = s4\<lparr>graph := graph s4 @ [gain_setValueAtTime 0 now]\<rparr>
      in s5\<lparr>nextStartTime := 0, session := None, sessionPromise := False\<rparr>)"

text \<open>\<open>pause()\<close>\<close>

definition pause :: "real \<Rightarrow> helper \<Rightarrow> helper" where
  "pause now s =
     (let s1 = s\<lparr>isTryingToConnectOrPlay := False\<rparr>;
          s2 = (if isRecording s1 then stopRecording s1 else s1);
          s3 = (if session s2 \<noteq> None
                then s2\<lparr>upstream := upstream s2 @ [session_pause]\<rparr> else s2);
          s4 = setPlaybackState paused s3;
          s5 = s4\<lparr>graph := graph s4 @ [gain_linearRampToValueAtTime 0 (now + 0.1)]\<rparr>
      in s5\<lparr>nextStartTime := 0\<rparr>)"

text \<open>
  \<open>connect()\<close>: asks the backend for a session and keeps the promise. It
  assigns no other field.
\<close>

definition connect :: "helper \<Rightarrow> helper" where
  "connect s = s\<lparr>sessionPromise := True, upstream := upstream s @ [open_session]\<rparr>"

text \<open>
  \<open>play()\<close> up to \<open>await this.connect()\<close>: the part that runs synchronously
  inside the call.
\<close>

definition play :: "helper \<Rightarrow> helper" where
  "play s =
     (let s1 = s\<lparr>isTryingToConnectOrPlay := True\<rparr>
      in if length (activePrompts s1) = 0
         then (dispatchEvent (error_event Add_active_prompt) s1)
                \<lparr>isTryingToConnectOrPlay := False\<rparr>
         else connect (setPlaybackState loading s1))"

text \<open>\<open>handleDisconnection()\<close>\<close>

definition handleDisconnection :: "real \<Rightarrow> helper \<Rightarrow> helper" where
  "handleDisconnection now s =
     (let wasTrying = isTryingToConnectOrPlay s;
          s1 = s\<lparr>session := None, sessionPromise := False\<rparr>
      in if wasTrying \<and> reconnectAttempts s1 < maxReconnectAttempts
         then
           (let s2 = setPlaybackState loading s1;
                s3 = s2\<lparr>reconnectAttempts := reconnectAttempts s2 + 1\<rparr>;
                delay = min (1000 * 2 ^ reconnectAttempts s3) 8000;
                s4 = dispatchEvent
                       (error_event (Retrying (reconnectAttempts s3) maxReconnectAttempts)) s3
            in setTimeout retry_play delay s4)
         else if wasTrying
         then stop now (dispatchEvent (error_event Unable_to_maintain) s1)
         else s1)"

text \<open>The callback of the retry timer: \<open>if (isTryingToConnectOrPlay) play()\<close>\<close>

definition retry_timer_fired :: "helper \<Rightarrow> helper" where
  "retry_timer_fired s = (if isTryingToConnectOrPlay s then play s else s)"

section \<open>Update throttler\<close>

text \<open>
  The function wrapped by \<open>throttle\<close>: it replaces \<open>prompts\<close> and, when a
  session is open, sends the active prompts upstream. A rejection of the
  session call is caught and logged.
\<close>

definition setWeightedPrompts_body :: "(string \<times> Prompt) list \<Rightarrow> helper \<Rightarrow> helper" where
  "setWeightedPrompts_body ps s =
     (let s1 = s\<lparr>prompts := ps\<rparr>
      in if session s1 = None then s1
         else s1\<lparr>upstream := upstream s1 @ [session_setWeightedPrompts (activePrompts s1)]\<rparr>)"

text \<open>The interval given to \<open>throttle\<close>: \<open>throttle(..., 150)\<close>.\<close>

definition throttle_delay :: real where
  "throttle_delay = 150"

text \<open>
  Modelled from the spec: \<open>throttle\<close> of \<open>./throttle\<close> is not among the sources.
  The spec describes it as a trailing-edge utility with latest-value capture:
  every call replaces the remembered arguments, keeping only the most recent;
  a call with no window open opens one of 150 ms (a timer). The field
  \<open>throttle_pending\<close> holds the remembered arguments while a window is open.
\<close>

definition setWeightedPrompts :: "(string \<times> Prompt) list \<Rightarrow> helper \<Rightarrow> helper" where
  "setWeightedPrompts ps s =
     (case throttle_pending s of
        None \<Rightarrow> setTimeout throttle_elapsed throttle_delay (s\<lparr>throttle_pending := Some ps\<rparr>)
      | Some _ \<Rightarrow> s\<lparr>throttle_pending := Some ps\<rparr>)"

text \<open>
  Modelled from the spec: the end of the window of \<open>throttle\<close> (its timer fires).
  The wrapped function is called once, with the remembered arguments, and the
  window is closed.
\<close>

definition throttle_timer_fired :: "helper \<Rightarrow> helper" where
  "throttle_timer_fired s =
     (case throttle_pending s of
        None \<Rightarrow> s
      | Some ps \<Rightarrow> setWeightedPrompts_body ps (s\<lparr>throttle_pending := None\<rparr>))"

text \<open>
  Modelled from the spec: calls of the throttled \<open>setWeightedPrompts\<close> at given
  times (milliseconds, in the order of the list) on the event loop. \<open>dl\<close> is
  the time at which the open window ends, if one is open. A window that has
  ended by the time of a call fires before the call; the window still open
  after the last call fires at its end.
\<close>

fun calls_at ::
  "real option \<Rightarrow> ((string \<times> Prompt) list \<times> real) list \<Rightarrow> helper \<Rightarrow> helper" where
  "calls_at dl [] s = (case dl of None \<Rightarrow> s | Some _ \<Rightarrow> throttle_timer_fired s)"
| "calls_at dl ((ps, t) # xs) s =
     (case dl of
        None \<Rightarrow> calls_at (Some (t + throttle_delay)) xs (setWeightedPrompts ps s)
      | Some d \<Rightarrow>
          if d \<le> t
          then calls_at (Some (t + throttle_delay)) xs
                 (setWeightedPrompts ps (throttle_timer_fired s))
          else calls_at (Some d) xs (setWeightedPrompts ps s))"

text \<open>
  \<open>play()\<close> after \<open>await this.connect()\<close> has given the session \<open>h\<close>; a rejection
  runs \<open>handleDisconnection\<close> instead. The call of \<open>this.setWeightedPrompts\<close> goes
  through the throttle.
\<close>

definition play_connected :: "session_handle \<Rightarrow> real \<Rightarrow> helper \<Rightarrow> helper" where
  "play_connected h now s =
     (let s1 = s\<lparr>session := Some h\<rparr>
      in if \<not> isTryingToConnectOrPlay s1 then stop now s1
         else
           (let s2 = setWeightedPrompts (prompts s1) s1;
                s3 = s2\<lparr>graph := graph s2 @ [context_resume],
                        upstream := upstream s2 @ [session_play]\<rparr>;
                s4 = s3\<lparr>graph := graph s3 @ [master_connect_destination]\<rparr>;
                s5 = (if extraDestination s4
                      then s4\<lparr>graph := graph s4 @ [master_connect_extra]\<rparr> else s4)
            in s5\<lparr>graph := graph s5 @
                    [gain_setValueAtTime 0 now, gain_linearRampToValueAtTime 1 (now + 0.2)]\<rparr>))"

text \<open>
  A message of the session, as \<open>onmessage\<close> reads it. Each audio chunk comes
  with its decoding result and the clock at which it is scheduled.
\<close>

record server_message =
  setupComplete :: bool
  filteredPrompt :: "string option"
  audioChunks :: "(AudioChunk \<times> real option \<times> real) list option"

text \<open>
  The loop \<open>for (const chunk of audioChunks) await this.processAudioChunk(chunk)\<close>
  of \<open>onmessage\<close>: a chunk that passes the guard and whose decoding throws
  rejects the awaited promise, which ends the loop; the chunks after it are
  not processed.
\<close>

fun onmessage_chunks ::
  "(AudioChunk \<times> real option \<times> real) list \<Rightarrow> helper \<Rightarrow> helper" where
  "onmessage_chunks [] s = s"
| "onmessage_chunks ((c, dec, now) # xs) s =
     (if \<not> chunk_dropped s c \<and> dec = None then s
      else onmessage_chunks xs (processAudioChunk c dec now s))"

definition onmessage :: "server_message \<Rightarrow> helper \<Rightarrow> helper" where
  "onmessage e s =
     (let s1 = (if setupComplete e then s\<lparr>reconnectAttempts := 0\<rparr> else s);
          s2 = (case filteredPrompt e of
                  None \<Rightarrow> s1
                | Some txt \<Rightarrow>
                    dispatchEvent (filtered_prompt_event txt)
                      (s1\<lparr>filteredPrompts := insert txt (filteredPrompts s1)\<rparr>))
      in case audioChunks e of None \<Rightarrow> s2 | Some cs \<Rightarrow> onmessage_chunks cs s2)"

section \<open>Recording\<close>

text \<open>\<open>startRecording()\<close>\<close>

definition startRecording :: "helper \<Rightarrow> helper" where
  "startRecording s =
     (if isRecording s \<or> playbackState s \<noteq> playing then s
      else
        (let s1 = s\<lparr>graph := graph s @ [master_connect_stream]\<rparr>;
             s2 = s1\<lparr>mediaRecorder := True, recorder := recorder s1 @ [recorder_created]\<rparr>;
             s3 = s2\<lparr>recordedChunks := []\<rparr>;
             s4 = s3\<lparr>recorder := recorder s3 @ [recorder_start]\<rparr>;
             s5 = s4\<lparr>isRecording := True\<rparr>
         in dispatchEvent (recording_state_changed True) s5))"

section \<open>The control surface and the callbacks as one step function\<close>

datatype action =
    Play
  | Play_connected session_handle real
  | Pause real
  | Stop real
  | Connect
  | Disconnected real
  | Message server_message
  | Retry_timer
  | Preroll_timer
  | Throttle_timer
  | SetWeightedPrompts "(string \<times> Prompt) list"
  | StartRecording
  | StopRecording
  | SetPlaybackRate real

fun step :: "action \<Rightarrow> helper \<Rightarrow> helper" where
  "step Play s = play s"
| "step (Play_connected h now) s = play_connected h now s"
| "step (Pause now) s = pause now s"
| "step (Stop now) s = stop now s"
| "step Connect s = connect s"
| "step (Disconnected now) s = handleDisconnection now s"
| "step (Message e) s = onmessage e s"
| "step Retry_timer s = retry_timer_fired s"
| "step Preroll_timer s = preroll_timer_fired s"
| "step Throttle_timer s = throttle_timer_fired s"
| "step (SetWeightedPrompts ps) s = setWeightedPrompts ps s"
| "step StartRecording s = startRecording s"
| "step StopRecording s = stopRecording s"
| "step (SetPlaybackRate r) s = s\<lparr>playbackRate := r\<rparr>"

fun run :: "action list \<Rightarrow> helper \<Rightarrow> helper" where
  "run [] s = s"
| "run (a # as) s = run as (step a s)"

text \<open>
  Consecutive disconnections, at the given clock values: after each one the
  retry timer it may have armed fires before the next disconnection.
\<close>

fun disconnections :: "real list \<Rightarrow> helper \<Rightarrow> helper" where
  "disconnections [] s = s"
| "disconnections (now # ts) s =
     disconnections ts (retry_timer_fired (handleDisconnection now s))"

definition retry_delays :: "helper \<Rightarrow> real list" where
  "retry_delays s = map snd (filter (\<lambda>t. fst t = retry_play) (timers s))"

definition fatal_errors :: "helper \<Rightarrow> nat" where
  "fatal_errors s = length (filter (\<lambda>e. e = error_event Unable_to_maintain) (events s))"

section \<open>Effects graph: the parameter setters of \<open>AudioEffects\<close>\<close>

text \<open>An automation event on an \<open>AudioParam\<close>: \<open>setTargetAtTime(target, startTime, timeConstant)\<close>.\<close>

record automation =
  target :: real
  startTime :: real
  timeConstant :: real

text \<open>
  The state of \<open>AudioEffects\<close> that the setters read, and for every audio
  parameter the automation events the setters scheduled on it, in order.
\<close>

record effects =
  sampleRate :: real
  is8DEnabled :: bool
  pan :: "automation list"
  frequency :: "automation list"
  Q :: "automation list"
  delayWetGain :: "automation list"
  reverbWetGain :: "automation list"
  delayTime :: "automation list"
  delayFeedback :: "automation list"

definition setTargetAtTime :: "real \<Rightarrow> real \<Rightarrow> real \<Rightarrow> automation list \<Rightarrow> automation list" where
  "setTargetAtTime v t c p = p @ [\<lparr>target = v, startTime = t, timeConstant = c\<rparr>]"

definition setPan :: "real \<Rightarrow> real \<Rightarrow> effects \<Rightarrow> effects" where
  "setPan v now fx =
     (if is8DEnabled fx then fx
      else fx\<lparr>pan := setTargetAtTime v now 0.05 (pan fx)\<rparr>)"

text \<open>
  \<open>Math.pow(maxFreq / minFreq, value)\<close> is \<open>powr\<close>: the base is positive
  whenever the sample rate is.
\<close>

definition setFilterCutoff :: "real \<Rightarrow> real \<Rightarrow> effects \<Rightarrow> effects" where
  "setFilterCutoff v now fx =
     (let minFreq = 40;
          maxFreq = sampleRate fx / 2;
          freq = minFreq * (maxFreq / minFreq) powr v
      in fx\<lparr>frequency := setTargetAtTime freq now 0.05 (frequency fx)\<rparr>)"

definition setFilterResonance :: "real \<Rightarrow> real \<Rightarrow> effects \<Rightarrow> effects" where
  "setFilterResonance v now fx =
     (let minQ = 0.1;
          maxQ = 20;
          qValue = minQ + v * (maxQ - minQ)
      in fx\<lparr>Q := setTargetAtTime qValue now 0.05 (Q fx)\<rparr>)"

definition setDelay :: "real \<Rightarrow> real \<Rightarrow> effects \<Rightarrow> effects" where
  "setDelay v now fx = fx\<lparr>delayWetGain := setTargetAtTime v now 0.05 (delayWetGain fx)\<rparr>"

definition setReverb :: "real \<Rightarrow> real \<Rightarrow> effects \<Rightarrow> effects" where
  "setReverb v now fx = fx\<lparr>reverbWetGain := setTargetAtTime v now 0.05 (reverbWetGain fx)\<rparr>"

definition setDelayTime :: "real \<Rightarrow> real \<Rightarrow> effects \<Rightarrow> effects" where
  "setDelayTime v now fx = fx\<lparr>delayTime := setTargetAtTime v now 0.05 (delayTime fx)\<rparr>"

definition setDelayFeedback :: "real \<Rightarrow> real \<Rightarrow> effects \<Rightarrow> effects" where
  "setDelayFeedback v now fx = fx\<lparr>delayFeedback := setTargetAtTime v now 0.05 (delayFeedback fx)\<rparr>"

text \<open>
  \<open>new AudioEffects(audioContext)\<close> on the helper's context of 48 kHz: no
  automation is scheduled yet and 8D is off.
\<close>

definition new_effects :: effects where
  "new_effects =
     \<lparr> sampleRate = 48000, is8DEnabled = False, pan = [], frequency = [], Q = [],
       delayWetGain = [], reverbWetGain = [], delayTime = [], delayFeedback = [] \<rparr>"

section \<open>Properties\<close>

subsection \<open>Recording\<close>

text \<open>
  Claim C10. \<open>startRecording()\<close> has no effect whenever a recording is already
  in progress or the playback state is not \<open>playing\<close>: the whole state is left
  as it was; in particular no recorder is created, the recording flag keeps
  its value and no event is dispatched.
\<close>

theorem startRecording_guarded:
  "isRecording s \<or> playbackState s \<noteq> playing \<Longrightarrow>
     startRecording s = s \<and> mediaRecorder (startRecording s) = mediaRecorder s \<and>
     recorder (startRecording s) = recorder s \<and>
     isRecording (startRecording s) = isRecording s \<and>
     events (startRecording s) = events s"
  by (simp add: startRecording_def)

text \<open>
  On a fresh helper (state \<open>stopped\<close>) the call does nothing; once the state
  is \<open>playing\<close> it creates and starts a recorder.
\<close>

theorem startRecording_guarded_witness:
  "(isRecording new_helper \<or> playbackState new_helper \<noteq> playing) \<and>
   startRecording new_helper = new_helper \<and>
   recorder (startRecording (new_helper\<lparr>playbackState := playing\<rparr>)) =
     [recorder_created, recorder_start]"
  using startRecording_guarded [of new_helper]
  by (simp add: new_helper_def startRecording_def dispatchEvent_def)

subsection \<open>\<open>play()\<close> without active prompts\<close>

text \<open>
  Claim C4. If \<open>play()\<close> is called while the set of active prompts is empty,
  it dispatches the error event inside the call, opens no session (no call
  reaches the backend, \<open>session\<close> and \<open>sessionPromise\<close> keep their values) and
  leaves the playback state unchanged. The call returns before its first
  \<open>await\<close>, so \<open>play\<close> is all of it here.
\<close>

theorem play_without_active_prompts:
  assumes "activePrompts s = []"
  shows "events (play s) = events s @ [error_event Add_active_prompt] \<and>
         upstream (play s) = upstream s \<and>
         session (play s) = session s \<and>
         sessionPromise (play s) = sessionPromise s \<and>
         playbackState (play s) = playbackState s \<and>
         \<not> isTryingToConnectOrPlay (play s)"
proof -
  have "activePrompts (s\<lparr>isTryingToConnectOrPlay := True\<rparr>) = []"
    using assms by (simp add: activePrompts_def)
  then show ?thesis
    by (simp add: play_def dispatchEvent_def Let_def)
qed

theorem play_without_active_prompts_witness:
  "activePrompts new_helper = [] \<and>
   events (play new_helper) = [error_event Add_active_prompt] \<and>
   upstream (play new_helper) = [] \<and>
   playbackState (play new_helper) = stopped"
proof -
  have h: "activePrompts new_helper = []"
    by (simp add: activePrompts_def new_helper_def)
  show ?thesis
    using h play_without_active_prompts [OF h] by (simp add: new_helper_def)
qed

subsection \<open>Filter mapping\<close>

text \<open>
  Claim C9. \<open>setFilterCutoff\<close> maps its input \<open>v\<close> to the target frequency
  \<open>40 * (nyquist / 40) ^ v\<close>, where \<open>nyquist\<close> is half the sample rate: \<open>v = 0\<close>
  gives 40 Hz, \<open>v = 1\<close> gives Nyquist, and the logarithm of the frequency is
  linear in \<open>v\<close>. \<open>setFilterResonance\<close> maps \<open>v\<close> to \<open>Q = 0.1 + v * (20 - 0.1)\<close>.
\<close>

theorem filter_mapping:
  assumes "0 < sampleRate fx"
  shows "target (last (frequency (setFilterCutoff v now fx))) =
           40 * ((sampleRate fx / 2) / 40) powr v \<and>
         target (last (frequency (setFilterCutoff 0 now fx))) = 40 \<and>
         target (last (frequency (setFilterCutoff 1 now fx))) = sampleRate fx / 2 \<and>
         ln (target (last (frequency (setFilterCutoff v now fx)))) =
           ln 40 + v * ln ((sampleRate fx / 2) / 40) \<and>
         target (last (Q (setFilterResonance v now fx))) = 0.1 + v * (20 - 0.1)"
proof -
  have pos: "0 < sampleRate fx / 2 / 40"
    using assms by simp
  have f: "target (last (frequency (setFilterCutoff w now fx))) =
             40 * ((sampleRate fx / 2) / 40) powr w" for w
    by (simp add: setFilterCutoff_def setTargetAtTime_def Let_def)
  have l: "ln (40 * ((sampleRate fx / 2) / 40) powr v) =
             ln 40 + v * ln ((sampleRate fx / 2) / 40)"
    using pos by (simp add: ln_mult ln_powr)
  have q: "target (last (Q (setFilterResonance v now fx))) = 0.1 + v * (20 - 0.1)"
    by (simp add: setFilterResonance_def setTargetAtTime_def Let_def)
  show ?thesis
    using pos f l q by simp
qed

theorem filter_mapping_witness:
  "0 < sampleRate new_effects \<and>
   target (last (frequency (setFilterCutoff 0 0 new_effects))) = 40 \<and>
   target (last (frequency (setFilterCutoff 1 0 new_effects))) = 24000 \<and>
   target (last (Q (setFilterResonance 1 0 new_effects))) = 20"
proof -
  have h: "0 < sampleRate new_effects"
    by (simp add: new_effects_def)
  have s: "sampleRate new_effects / 2 = 24000"
    by (simp add: new_effects_def)
  show ?thesis
    using h s filter_mapping [OF h, of 1 0] by simp
qed

subsection \<open>Effects setters\<close>

text \<open>
  Claim C5, as stated: every setter clamps an out-of-range input, delay
  feedback to \<open>[0, 0.95]\<close>. It fails: \<open>setDelayFeedback(2)\<close> on a fresh effects
  graph schedules the target 2.
\<close>

theorem setters_clamp_counterexample:
  "\<not> (target (last (delayFeedback (setDelayFeedback 2 0 new_effects))) \<le> 0.95)"
  by (simp add: setDelayFeedback_def setTargetAtTime_def new_effects_def)

text \<open>
  Claim C5, amended. No setter rejects or clamps its input. \<open>setPan\<close> (while
  8D is off), \<open>setDelay\<close>, \<open>setReverb\<close>, \<open>setDelayTime\<close> and \<open>setDelayFeedback\<close>
  schedule the input itself as the target of their parameter, whatever its
  value; \<open>setFilterCutoff\<close> and \<open>setFilterResonance\<close> schedule their mapping
  of the input, outside \<open>[0, 1]\<close> too; \<open>setPan\<close> does nothing while 8D is on.
\<close>

theorem setters_pass_input_on:
  "(\<not> is8DEnabled fx \<longrightarrow> target (last (pan (setPan v now fx))) = v) \<and>
   (is8DEnabled fx \<longrightarrow> setPan v now fx = fx) \<and>
   target (last (delayWetGain (setDelay v now fx))) = v \<and>
   target (last (reverbWetGain (setReverb v now fx))) = v \<and>
   target (last (delayTime (setDelayTime v now fx))) = v \<and>
   target (last (delayFeedback (setDelayFeedback v now fx))) = v \<and>
   target (last (frequency (setFilterCutoff v now fx))) =
     40 * ((sampleRate fx / 2) / 40) powr v \<and>
   target (last (Q (setFilterResonance v now fx))) = 0.1 + v * (20 - 0.1)"
  by (simp add: setPan_def setDelay_def setReverb_def setDelayTime_def setDelayFeedback_def
      setFilterCutoff_def setFilterResonance_def setTargetAtTime_def Let_def)

theorem setters_pass_input_on_witness:
  "\<not> is8DEnabled new_effects \<and>
   target (last (pan (setPan (-3) 0 new_effects))) = -3 \<and>
   target (last (reverbWetGain (setReverb 7 0 new_effects))) = 7 \<and>
   target (last (delayFeedback (setDelayFeedback 2 0 new_effects))) = 2 \<and>
   is8DEnabled (new_effects\<lparr>is8DEnabled := True\<rparr>) \<and>
   setPan (-3) 0 (new_effects\<lparr>is8DEnabled := True\<rparr>) = new_effects\<lparr>is8DEnabled := True\<rparr>"
  using setters_pass_input_on [of new_effects "-3" 0]
    setters_pass_input_on [of new_effects 7 0]
    setters_pass_input_on [of new_effects 2 0]
    setters_pass_input_on [of "new_effects\<lparr>is8DEnabled := True\<rparr>" "-3" 0]
  by (simp add: new_effects_def)

subsection \<open>Start times against the audio clock\<close>

text \<open>
  Claim C2, as stated: the start time handed to the buffer source is never
  in the past of the audio clock. It fails: while \<open>playing\<close>, with
  \<open>nextStartTime = 10\<close> and the clock at 10.3, the lag of 0.3 s is below the
  threshold of the drift check and the source is started at 10.
\<close>

theorem start_in_the_past_counterexample:
  "start_when (last (started (processAudioChunk \<lparr>data = Some ''x''\<rparr> (Some 1) 10.3
      (new_helper\<lparr>playbackState := playing, nextStartTime := 10\<rparr>)))) < 10.3"
  by (simp add: processAudioChunk_def chunk_dropped_def schedule_decoded_def start_source_def
      preroll_def resync_def new_helper_def)

text \<open>
  Claim C2, amended. The start time handed to the buffer source is never more
  than 0.5 s in the past of the audio clock at the moment of scheduling.
  Whenever \<open>nextStartTime < now - 0.5\<close> at ingest, \<open>nextStartTime\<close> is first
  resynchronized to exactly \<open>now + 0.1\<close>, which is the start time unless the
  state is \<open>loading\<close>; while \<open>loading\<close> the start time is \<open>now + bufferTime\<close>.
  A chunk that is not dropped and decodes is scheduled this way.
\<close>

theorem start_not_far_in_the_past:
  "now - 0.5 \<le> start_when (last (started (schedule_decoded d now s))) \<and>
   (nextStartTime s < now - 0.5 \<longrightarrow>
      nextStartTime (resync now s) = now + 0.1 \<and>
      (playbackState s \<noteq> loading \<longrightarrow>
         start_when (last (started (schedule_decoded d now s))) = now + 0.1)) \<and>
   (playbackState s = loading \<longrightarrow>
      start_when (last (started (schedule_decoded d now s))) = now + bufferTime) \<and>
   (\<not> chunk_dropped s c \<longrightarrow> processAudioChunk c (Some d) now s = schedule_decoded d now s)"
  by (simp add: processAudioChunk_def schedule_decoded_def start_source_def
      preroll_def resync_def setTimeout_def bufferTime_def)

theorem start_not_far_in_the_past_witness:
  "nextStartTime (new_helper\<lparr>playbackState := playing, nextStartTime := 1\<rparr>) < 10 - 0.5 \<and>
   playbackState (new_helper\<lparr>playbackState := playing, nextStartTime := 1\<rparr>) \<noteq> loading \<and>
   \<not> chunk_dropped (new_helper\<lparr>playbackState := playing, nextStartTime := 1\<rparr>)
       \<lparr>data = Some ''x''\<rparr> \<and>
   start_when (last (started (processAudioChunk \<lparr>data = Some ''x''\<rparr> (Some 2) 10
      (new_helper\<lparr>playbackState := playing, nextStartTime := 1\<rparr>)))) = 10.1 \<and>
   playbackState (new_helper\<lparr>playbackState := loading\<rparr>) = loading \<and>
   start_when (last (started (schedule_decoded 2 10 (new_helper\<lparr>playbackState := loading\<rparr>))))
     = 12.5"
  using start_not_far_in_the_past
          [of 10 2 "new_helper\<lparr>playbackState := playing, nextStartTime := 1\<rparr>"
              "\<lparr>data = Some ''x''\<rparr>"]
        start_not_far_in_the_past
          [of 10 2 "new_helper\<lparr>playbackState := loading\<rparr>" "\<lparr>data = Some ''x''\<rparr>"]
  by (simp add: chunk_dropped_def new_helper_def bufferTime_def)

subsection \<open>Pre-roll\<close>

text \<open>
  Claim C7: the pre-roll is set up once on entering the buffering phase, not
  on every buffer. The code does it on every buffer ingested while \<open>loading\<close>:
  two chunks of 2 s arriving at clock 0 and 0.01 arm two timers, and the second
  is started at 2.51, inside the first (which plays from 2.5 to 4.5), instead
  of at 4.5.
\<close>

theorem preroll_repeated_per_buffer:
  "timers (ingest [(\<lparr>data = Some ''a''\<rparr>, Some 2, 0), (\<lparr>data = Some ''b''\<rparr>, Some 2, 0.01)]
            (new_helper\<lparr>playbackState := loading\<rparr>)) =
     [(preroll_done, 2500), (preroll_done, 2500)] \<and>
   map start_when
     (started (ingest [(\<lparr>data = Some ''a''\<rparr>, Some 2, 0), (\<lparr>data = Some ''b''\<rparr>, Some 2, 0.01)]
            (new_helper\<lparr>playbackState := loading\<rparr>))) = [2.5, 2.51]"
  by (simp add: processAudioChunk_def chunk_dropped_def schedule_decoded_def start_source_def
      preroll_def resync_def new_helper_def setTimeout_def bufferTime_def)

subsection \<open>Gapless scheduling while playing\<close>

lemma ingest_append: "ingest (xs @ ys) s = ingest ys (ingest xs s)"
  by (induction xs arbitrary: s) auto

lemma processAudioChunk_playing:
  assumes "playbackState s = playing" and "playable (c, dec, now)"
  shows "\<exists>d. dec = Some d \<and> 0 < d \<and>
           processAudioChunk c dec now s =
             s\<lparr>started := started s @
                  [\<lparr>start_when = (if nextStartTime s < now - 0.5 then now + 0.1 else nextStartTime s),
                    buffer_duration = d, source_rate = playbackRate s\<rparr>],
               nextStartTime := (if nextStartTime s < now - 0.5 then now + 0.1 else nextStartTime s) + d\<rparr>"
  using assms
  by (auto simp: playable_def processAudioChunk_def chunk_dropped_def schedule_decoded_def
      start_source_def preroll_def resync_def split: option.splits)

lemma ingest_playing:
  assumes "playbackState s = playing"
  shows "(\<forall>x \<in> set xs. playable x) \<Longrightarrow>
         playbackState (ingest xs s) = playing \<and>
         (\<exists>bs. started (ingest xs s) = started s @ bs \<and> length bs = length xs \<and>
            (xs \<noteq> [] \<longrightarrow> nextStartTime (ingest xs s) = start_when (last bs) + buffer_duration (last bs)) \<and>
            (\<forall>i < length xs. fst (snd (xs ! i)) = Some (buffer_duration (bs ! i))) \<and>
            adjacent_ok xs bs)"
proof (induction xs rule: rev_induct)
  case Nil
  show ?case using assms by (simp add: adjacent_ok_def)
next
  case (snoc x xs)
  obtain c dec now where x: "x = (c, dec, now)" by (cases x)
  let ?s = "ingest xs s"
  from snoc obtain bs where
    pl: "playbackState ?s = playing" and
    st: "started ?s = started s @ bs" and
    len: "length bs = length xs" and
    nst: "xs \<noteq> [] \<longrightarrow> nextStartTime ?s = start_when (last bs) + buffer_duration (last bs)" and
    dur: "\<forall>i < length xs. fst (snd (xs ! i)) = Some (buffer_duration (bs ! i))" and
    adj: "adjacent_ok xs bs"
    by auto
  have px: "playable (c, dec, now)" using snoc.prems x by simp
  let ?w = "if nextStartTime ?s < now - 0.5 then now + 0.1 else nextStartTime ?s"
  from processAudioChunk_playing [OF pl px] obtain d where
    d: "dec = Some d" "0 < d" and
    step: "processAudioChunk c dec now ?s =
             ?s\<lparr>started := started ?s @ [\<lparr>start_when = ?w, buffer_duration = d, source_rate = playbackRate ?s\<rparr>],
                nextStartTime := ?w + d\<rparr>"
    by blast
  let ?b = "\<lparr>start_when = ?w, buffer_duration = d, source_rate = playbackRate ?s\<rparr>"
  have ing: "ingest (xs @ [x]) s = processAudioChunk c dec now ?s"
    by (simp add: ingest_append x)
  have 1: "playbackState (ingest (xs @ [x]) s) = playing"
    using pl by (simp add: ing step)
  have 2: "started (ingest (xs @ [x]) s) = started s @ (bs @ [?b])"
    by (simp add: ing step st)
  have 3: "length (bs @ [?b]) = length (xs @ [x])" using len by simp
  have 4: "nextStartTime (ingest (xs @ [x]) s) = start_when (last (bs @ [?b])) + buffer_duration (last (bs @ [?b]))"
    by (simp add: ing step)
  have 5: "\<forall>i < length (xs @ [x]). fst (snd ((xs @ [x]) ! i)) = Some (buffer_duration ((bs @ [?b]) ! i))"
    using dur len d x by (auto simp: nth_append)
  have 6: "adjacent_ok (xs @ [x]) (bs @ [?b])"
    unfolding adjacent_ok_def
  proof (intro allI impI)
    fix i assume i: "Suc i < length (xs @ [x])"
    show "start_when ((bs @ [?b]) ! i) < start_when ((bs @ [?b]) ! Suc i) \<and>
        (start_when ((bs @ [?b]) ! Suc i) = start_when ((bs @ [?b]) ! i) + buffer_duration ((bs @ [?b]) ! i) \<or>
         start_when ((bs @ [?b]) ! i) + buffer_duration ((bs @ [?b]) ! i) < ingest_time ((xs @ [x]) ! Suc i) - 0.5 \<and>
         start_when ((bs @ [?b]) ! Suc i) = ingest_time ((xs @ [x]) ! Suc i) + 0.1)"
    proof (cases "Suc i < length xs")
      case True
      then show ?thesis
        using adj len by (simp add: adjacent_ok_def nth_append)
    next
      case False
      with i have e: "Suc i = length xs" by simp
      then have ne: "xs \<noteq> []" by auto
      have li: "bs ! i = last bs" using e len ne by (metis diff_Suc_1 last_conv_nth length_0_conv)
      have n: "nextStartTime ?s = start_when (bs ! i) + buffer_duration (bs ! i)"
        using nst ne li by simp
      have "i < length xs" using e by simp
      with dur have "fst (snd (xs ! i)) = Some (buffer_duration (bs ! i))" by blast
      moreover have "playable (xs ! i)" using snoc.prems \<open>i < length xs\<close> by simp
      ultimately have dp: "0 < buffer_duration (bs ! i)"
        by (cases "xs ! i") (auto simp: playable_def split: option.splits)
      show ?thesis
        using e len n dp by (simp add: nth_append ingest_time_def x)
    qed
  qed
  show ?case using 1 2 3 4 5 6 by blast
qed

text \<open>
  Claim C1. For every sequence of buffers ingested while the state is
  \<open>playing\<close> (chunks that carry data and decode to a buffer of positive
  duration), one source is started per buffer, with the duration of that
  buffer; the start times are strictly increasing; and each buffer starts at
  the start of the previous one plus the duration of the previous one, except
  right after a resynchronization, where it starts 0.1 s after the clock of
  its ingest.
\<close>

theorem gapless_while_playing:
  assumes "playbackState s = playing" and "\<forall>x \<in> set xs. playable x"
  shows "(let bs = newly_started s (ingest xs s) in
          length bs = length xs \<and>
          (\<forall>i < length xs. fst (snd (xs ! i)) = Some (buffer_duration (bs ! i))) \<and>
          (\<forall>i. Suc i < length xs \<longrightarrow>
             start_when (bs ! i) < start_when (bs ! Suc i) \<and>
             (start_when (bs ! Suc i) = start_when (bs ! i) + buffer_duration (bs ! i) \<or>
              start_when (bs ! i) + buffer_duration (bs ! i) < ingest_time (xs ! Suc i) - 0.5 \<and>
              start_when (bs ! Suc i) = ingest_time (xs ! Suc i) + 0.1)))"
proof -
  from ingest_playing [OF assms(1) assms(2)] obtain bs where
    st: "started (ingest xs s) = started s @ bs" and
    len: "length bs = length xs" and
    dur: "\<forall>i < length xs. fst (snd (xs ! i)) = Some (buffer_duration (bs ! i))" and
    adj: "adjacent_ok xs bs"
    by blast
  have "newly_started s (ingest xs s) = bs"
    by (simp add: newly_started_def st)
  then show ?thesis
    using len dur adj by (simp add: adjacent_ok_def)
qed

text \<open>
  Three buffers of 2 s while playing, with \<open>nextStartTime = 1\<close>: the first two
  are contiguous (1 and 3); the third arrives when the clock (9) is more than
  0.5 s past the end of the second (5) and starts at 9.1.
\<close>

theorem gapless_while_playing_witness:
  "playbackState (new_helper\<lparr>playbackState := playing, nextStartTime := 1\<rparr>) = playing \<and>
   playable (\<lparr>data = Some ''a''\<rparr>, Some 2, 1) \<and>
   playable (\<lparr>data = Some ''b''\<rparr>, Some 2, 1.2) \<and>
   playable (\<lparr>data = Some ''c''\<rparr>, Some 2, 9) \<and>
   map start_when (newly_started (new_helper\<lparr>playbackState := playing, nextStartTime := 1\<rparr>)
     (ingest [(\<lparr>data = Some ''a''\<rparr>, Some 2, 1), (\<lparr>data = Some ''b''\<rparr>, Some 2, 1.2),
              (\<lparr>data = Some ''c''\<rparr>, Some 2, 9)]
        (new_helper\<lparr>playbackState := playing, nextStartTime := 1\<rparr>))) = [1, 3, 9.1] \<and>
   length (newly_started (new_helper\<lparr>playbackState := playing, nextStartTime := 1\<rparr>)
     (ingest [(\<lparr>data = Some ''a''\<rparr>, Some 2, 1), (\<lparr>data = Some ''b''\<rparr>, Some 2, 1.2),
              (\<lparr>data = Some ''c''\<rparr>, Some 2, 9)]
        (new_helper\<lparr>playbackState := playing, nextStartTime := 1\<rparr>))) = 3"
proof -
  let ?s = "new_helper\<lparr>playbackState := playing, nextStartTime := 1\<rparr>"
  let ?xs = "[(\<lparr>data = Some ''a''\<rparr>, Some (2::real), 1::real), (\<lparr>data = Some ''b''\<rparr>, Some 2, 1.2),
              (\<lparr>data = Some ''c''\<rparr>, Some 2, 9)]"
  have a: "playbackState ?s = playing"
    by simp
  have b: "\<forall>x \<in> set ?xs. playable x"
    by (simp add: playable_def)
  have c: "map start_when (newly_started ?s (ingest ?xs ?s)) = [1, 3, 9.1]"
    by (simp add: newly_started_def processAudioChunk_def chunk_dropped_def
        schedule_decoded_def start_source_def preroll_def resync_def new_helper_def)
  have d: "length (newly_started ?s (ingest ?xs ?s)) = length ?xs"
    using gapless_while_playing [OF a b] by (simp only: Let_def)
  show ?thesis
    using a b c d by simp
qed

subsection \<open>Reconnection with exponential backoff\<close>

lemma handleDisconnection_retry:
  assumes "isTryingToConnectOrPlay s" and "reconnectAttempts s < maxReconnectAttempts"
  shows "handleDisconnection now s =
           s\<lparr>session := None, sessionPromise := False, playbackState := loading,
             events := events s @ [playback_state_changed loading,
                error_event (Retrying (Suc (reconnectAttempts s)) maxReconnectAttempts)],
             reconnectAttempts := Suc (reconnectAttempts s),
             timers := timers s @ [(retry_play, min (1000 * 2 ^ Suc (reconnectAttempts s)) 8000)]\<rparr>"
  using assms
  by (simp add: handleDisconnection_def Let_def setPlaybackState_def dispatchEvent_def setTimeout_def)

lemma handleDisconnection_fatal:
  assumes "isTryingToConnectOrPlay s" and "\<not> reconnectAttempts s < maxReconnectAttempts"
  shows "handleDisconnection now s =
           stop now (dispatchEvent (error_event Unable_to_maintain)
                      (s\<lparr>session := None, sessionPromise := False\<rparr>))"
  using assms by (simp add: handleDisconnection_def Let_def)

lemma handleDisconnection_idle:
  assumes "\<not> isTryingToConnectOrPlay s"
  shows "handleDisconnection now s = s\<lparr>session := None, sessionPromise := False\<rparr>"
  using assms by (simp add: handleDisconnection_def Let_def)

lemma cycle_retry:
  fixes now :: real
  assumes "isTryingToConnectOrPlay s" and "reconnectAttempts s < maxReconnectAttempts"
    and "activePrompts s \<noteq> []"
  defines "s' \<equiv> retry_timer_fired (handleDisconnection now s)"
  shows "isTryingToConnectOrPlay s'" and "reconnectAttempts s' = Suc (reconnectAttempts s)"
    and "activePrompts s' = activePrompts s"
    and "retry_delays s' = retry_delays s @ [min (1000 * 2 ^ Suc (reconnectAttempts s)) 8000]"
    and "fatal_errors s' = fatal_errors s"
proof -
  let ?h = "handleDisconnection now s"
  have h: "isTryingToConnectOrPlay ?h" "prompts ?h = prompts s" "filteredPrompts ?h = filteredPrompts s"
    using assms(1,2) by (simp_all add: handleDisconnection_retry)
  have a: "activePrompts (?h\<lparr>isTryingToConnectOrPlay := True\<rparr>) = activePrompts s"
    using h by (simp add: activePrompts_def)
  have p: "s' = connect (setPlaybackState loading (?h\<lparr>isTryingToConnectOrPlay := True\<rparr>))"
    using h(1) a assms(3) by (simp add: s'_def retry_timer_fired_def play_def Let_def)
  show "isTryingToConnectOrPlay s'"
    by (simp add: p connect_def setPlaybackState_def dispatchEvent_def)
  show "reconnectAttempts s' = Suc (reconnectAttempts s)"
    using assms(1,2) by (simp add: p connect_def setPlaybackState_def dispatchEvent_def handleDisconnection_retry)
  show "activePrompts s' = activePrompts s"
    using h by (simp add: p connect_def setPlaybackState_def dispatchEvent_def activePrompts_def)
  show "retry_delays s' = retry_delays s @ [min (1000 * 2 ^ Suc (reconnectAttempts s)) 8000]"
    using assms(1,2) by (simp add: p connect_def setPlaybackState_def dispatchEvent_def handleDisconnection_retry retry_delays_def)
  show "fatal_errors s' = fatal_errors s"
    using assms(1,2) by (simp add: p connect_def setPlaybackState_def dispatchEvent_def handleDisconnection_retry fatal_errors_def)
qed

lemma stop_effects:
  "\<not> isTryingToConnectOrPlay (stop now s)" "playbackState (stop now s) = stopped"
  "session (stop now s) = None" "timers (stop now s) = timers s"
  "events (stop now s) = events s @ [playback_state_changed stopped]"
  "nextStartTime (stop now s) = 0"
  by (simp_all add: stop_def Let_def setPlaybackState_def dispatchEvent_def stopRecording_def)

lemma cycle_fatal:
  fixes now :: real
  assumes "isTryingToConnectOrPlay s" and "\<not> reconnectAttempts s < maxReconnectAttempts"
  defines "s' \<equiv> retry_timer_fired (handleDisconnection now s)"
  shows "\<not> isTryingToConnectOrPlay s'" and "retry_delays s' = retry_delays s"
    and "fatal_errors s' = Suc (fatal_errors s)" and "playbackState s' = stopped"
    and "session s' = None"
proof -
  have h: "handleDisconnection now s =
           stop now (dispatchEvent (error_event Unable_to_maintain)
                      (s\<lparr>session := None, sessionPromise := False\<rparr>))"
    using assms(1,2) by (rule handleDisconnection_fatal)
  have e: "s' = handleDisconnection now s"
    by (simp add: s'_def retry_timer_fired_def h stop_effects)
  show "\<not> isTryingToConnectOrPlay s'" by (simp add: e h stop_effects)
  show "retry_delays s' = retry_delays s"
    by (simp add: e h stop_effects retry_delays_def dispatchEvent_def)
  show "fatal_errors s' = Suc (fatal_errors s)"
    by (simp add: e h stop_effects fatal_errors_def dispatchEvent_def)
  show "playbackState s' = stopped" by (simp add: e h stop_effects)
  show "session s' = None" by (simp add: e h stop_effects)
qed

lemma disconnections_idle:
  "\<not> isTryingToConnectOrPlay s \<Longrightarrow>
     \<not> isTryingToConnectOrPlay (disconnections ts s) \<and>
     retry_delays (disconnections ts s) = retry_delays s \<and>
     fatal_errors (disconnections ts s) = fatal_errors s \<and>
     playbackState (disconnections ts s) = playbackState s \<and>
     (session s = None \<longrightarrow> session (disconnections ts s) = None)"
proof (induction ts arbitrary: s)
  case Nil
  then show ?case by simp
next
  case (Cons now ts)
  let ?s = "retry_timer_fired (handleDisconnection now s)"
  have e: "?s = s\<lparr>session := None, sessionPromise := False\<rparr>"
    using Cons.prems by (simp add: handleDisconnection_idle retry_timer_fired_def)
  have "\<not> isTryingToConnectOrPlay ?s" using Cons.prems by (simp add: e)
  from Cons.IH [OF this] show ?case
    by (simp add: e retry_delays_def fatal_errors_def)
qed

lemma disconnections_general:
  assumes "isTryingToConnectOrPlay s" and "activePrompts s \<noteq> []"
    and "reconnectAttempts s \<le> 5"
  shows "retry_delays (disconnections ts s) =
           retry_delays s @ map (\<lambda>n. min (1000 * 2 ^ n) 8000) [Suc (reconnectAttempts s) ..< Suc (min (reconnectAttempts s + length ts) 5)] \<and>
         fatal_errors (disconnections ts s) =
           fatal_errors s + (if 5 < reconnectAttempts s + length ts then 1 else 0) \<and>
         (5 < reconnectAttempts s + length ts \<longrightarrow>
            playbackState (disconnections ts s) = stopped \<and>
            \<not> isTryingToConnectOrPlay (disconnections ts s) \<and>
            session (disconnections ts s) = None)"
  using assms
proof (induction ts arbitrary: s)
  case Nil
  then show ?case by simp
next
  case (Cons now ts)
  let ?s = "retry_timer_fired (handleDisconnection now s)"
  show ?case
  proof (cases "reconnectAttempts s < 5")
    case True
    then have lt: "reconnectAttempts s < maxReconnectAttempts"
      by (simp add: maxReconnectAttempts_def)
    note c = cycle_retry [OF Cons.prems(1) lt Cons.prems(2), of now]
    have le: "reconnectAttempts ?s \<le> 5" using c(2) True by simp
    have ap: "activePrompts ?s \<noteq> []" using c(3) Cons.prems(2) by simp
    note ih = Cons.IH [OF c(1) ap le]
    define m where "m = Suc (min (Suc (reconnectAttempts s) + length ts) 5)"
    have m': "Suc (min (reconnectAttempts s + length (now # ts)) 5) = m"
      by (simp add: m_def)
    have "Suc (reconnectAttempts s) < m"
      using True by (simp add: m_def)
    then have u: "[Suc (reconnectAttempts s) ..< m] =
                    Suc (reconnectAttempts s) # [Suc (Suc (reconnectAttempts s)) ..< m]"
      by (rule upt_conv_Cons)
    have ih1: "retry_delays (disconnections ts ?s) =
                 retry_delays ?s @ map (\<lambda>n. min (1000 * 2 ^ n) 8000) [Suc (Suc (reconnectAttempts s)) ..< m]"
      using ih unfolding c(2) m_def by blast
    have c4: "retry_delays ?s = retry_delays s @ [min (1000 * 2 ^ Suc (reconnectAttempts s)) 8000]"
      using c(4) by simp
    have d: "retry_delays (disconnections (now # ts) s) =
               retry_delays s @ map (\<lambda>n. min (1000 * 2 ^ n) 8000) [Suc (reconnectAttempts s) ..< m]"
      unfolding u disconnections.simps ih1 c4 by simp
    have f: "fatal_errors (disconnections (now # ts) s) =
               fatal_errors s + (if 5 < reconnectAttempts s + length (now # ts) then 1 else 0)"
      using ih c(2,5) by simp
    have z: "5 < reconnectAttempts s + length (now # ts) \<longrightarrow>
            playbackState (disconnections (now # ts) s) = stopped \<and>
            \<not> isTryingToConnectOrPlay (disconnections (now # ts) s) \<and>
            session (disconnections (now # ts) s) = None"
      using ih c(2) by simp
    show ?thesis
      unfolding m' using d f z by blast
  next
    case False
    with Cons.prems(3) have a5: "reconnectAttempts s = 5" by simp
    then have nlt: "\<not> reconnectAttempts s < maxReconnectAttempts"
      by (simp add: maxReconnectAttempts_def)
    note c = cycle_fatal [OF Cons.prems(1) nlt, of now]
    note i = disconnections_idle [OF c(1), of ts]
    show ?thesis
      using i c a5 by simp
  qed
qed


lemma cycle_retry_session:
  fixes now :: real
  assumes "isTryingToConnectOrPlay s" and "reconnectAttempts s < maxReconnectAttempts"
    and "activePrompts s \<noteq> []"
  defines "s' \<equiv> retry_timer_fired (handleDisconnection now s)"
  shows "upstream s' = upstream s @ [open_session]" and "playbackState s' = loading"
    and "sessionPromise s'"
proof -
  let ?h = "handleDisconnection now s"
  have h: "isTryingToConnectOrPlay ?h" "prompts ?h = prompts s"
    "filteredPrompts ?h = filteredPrompts s" "upstream ?h = upstream s"
    using assms(1,2) by (simp_all add: handleDisconnection_retry)
  have a: "activePrompts (?h\<lparr>isTryingToConnectOrPlay := True\<rparr>) = activePrompts s"
    using h by (simp add: activePrompts_def)
  have p: "s' = connect (setPlaybackState loading (?h\<lparr>isTryingToConnectOrPlay := True\<rparr>))"
    using h(1) a assms(3) by (simp add: s'_def retry_timer_fired_def play_def Let_def)
  show "upstream s' = upstream s @ [open_session]"
    using h(4) by (simp add: p connect_def setPlaybackState_def dispatchEvent_def)
  show "playbackState s' = loading"
    by (simp add: p connect_def setPlaybackState_def dispatchEvent_def)
  show "sessionPromise s'"
    by (simp add: p connect_def)
qed

lemma cycle_fatal_session:
  fixes now :: real
  assumes "isTryingToConnectOrPlay s" and "\<not> reconnectAttempts s < maxReconnectAttempts"
  shows "upstream (retry_timer_fired (handleDisconnection now s)) = upstream s"
proof -
  have h: "handleDisconnection now s =
           stop now (dispatchEvent (error_event Unable_to_maintain)
                      (s\<lparr>session := None, sessionPromise := False\<rparr>))"
    using assms by (rule handleDisconnection_fatal)
  have e: "retry_timer_fired (handleDisconnection now s) = handleDisconnection now s"
    by (simp add: retry_timer_fired_def h stop_effects)
  have u: "upstream (handleDisconnection now s) = upstream s"
    unfolding h
    by (simp add: stop_def Let_def setPlaybackState_def dispatchEvent_def stopRecording_def)
  show ?thesis
    using e u by simp
qed

lemma disconnections_idle_session:
  "\<not> isTryingToConnectOrPlay s \<Longrightarrow> upstream (disconnections ts s) = upstream s"
proof (induction ts arbitrary: s)
  case Nil
  then show ?case by simp
next
  case (Cons now ts)
  let ?s = "retry_timer_fired (handleDisconnection now s)"
  have e: "?s = s\<lparr>session := None, sessionPromise := False\<rparr>"
    using Cons.prems by (simp add: handleDisconnection_idle retry_timer_fired_def)
  have "\<not> isTryingToConnectOrPlay ?s" using Cons.prems by (simp add: e)
  from Cons.IH [OF this] show ?case
    by (simp add: e)
qed

lemma disconnections_sessions:
  assumes "isTryingToConnectOrPlay s" and "activePrompts s \<noteq> []"
    and "reconnectAttempts s \<le> 5"
  shows "upstream (disconnections ts s) =
           upstream s @ replicate (min (reconnectAttempts s + length ts) 5 - reconnectAttempts s) open_session \<and>
         (ts \<noteq> [] \<and> reconnectAttempts s + length ts \<le> 5 \<longrightarrow>
            isTryingToConnectOrPlay (disconnections ts s) \<and>
            playbackState (disconnections ts s) = loading \<and>
            sessionPromise (disconnections ts s) \<and>
            reconnectAttempts (disconnections ts s) = reconnectAttempts s + length ts)"
  using assms
proof (induction ts arbitrary: s)
  case Nil
  then show ?case by simp
next
  case (Cons now ts)
  let ?s = "retry_timer_fired (handleDisconnection now s)"
  let ?a = "reconnectAttempts s"
  show ?case
  proof (cases "?a < 5")
    case True
    then have lt: "?a < maxReconnectAttempts"
      by (simp add: maxReconnectAttempts_def)
    note c = cycle_retry [OF Cons.prems(1) lt Cons.prems(2), of now]
    note cs = cycle_retry_session [OF Cons.prems(1) lt Cons.prems(2), of now]
    have le: "reconnectAttempts ?s \<le> 5" using c(2) True by simp
    have ap: "activePrompts ?s \<noteq> []" using c(3) Cons.prems(2) by simp
    note ih = Cons.IH [OF c(1) ap le]
    have k: "min (?a + length (now # ts)) 5 - ?a = Suc (min (Suc ?a + length ts) 5 - Suc ?a)"
      using True by simp
    have u: "upstream (disconnections (now # ts) s) =
               upstream s @ replicate (min (?a + length (now # ts)) 5 - ?a) open_session"
      using ih cs(1) unfolding k c(2) by simp
    have p: "(now # ts) \<noteq> [] \<and> ?a + length (now # ts) \<le> 5 \<longrightarrow>
            isTryingToConnectOrPlay (disconnections (now # ts) s) \<and>
            playbackState (disconnections (now # ts) s) = loading \<and>
            sessionPromise (disconnections (now # ts) s) \<and>
            reconnectAttempts (disconnections (now # ts) s) = ?a + length (now # ts)"
    proof (cases "ts = []")
      case True
      then show ?thesis using c(1,2) cs(2,3) by simp
    next
      case False
      then show ?thesis using ih c(2) by simp
    qed
    show ?thesis using u p by blast
  next
    case False
    with Cons.prems(3) have a5: "?a = 5" by simp
    then have nlt: "\<not> ?a < maxReconnectAttempts"
      by (simp add: maxReconnectAttempts_def)
    note c = cycle_fatal [OF Cons.prems(1) nlt, of now]
    note cf = cycle_fatal_session [OF Cons.prems(1) nlt, of now]
    note i = disconnections_idle_session [OF c(1), of ts]
    show ?thesis
      using i cf a5 by simp
  qed
qed

text \<open>
  Claim C3. Starting from a reset attempt counter, with the helper wanting to
  be connected and having an active prompt, let the session disconnect any
  number of times in a row, each retry timer firing before the next
  disconnection. The delay of the \<open>n\<close>-th retry is \<open>min (1000 * 2 ^ n) 8000\<close>
  milliseconds. Every retry runs \<open>play()\<close>, which asks the backend for a new
  session: one session is opened per disconnection up to the fifth and none
  after it, and after each of these retries the helper is \<open>loading\<close>, still
  wants to be connected and holds the promise of the session. At most 5
  retries are armed; from the sixth disconnection on the fatal error has been
  dispatched exactly once, \<open>stop()\<close> has run (state \<open>stopped\<close>, flag cleared,
  session released) and no timer still pending calls \<open>play()\<close>.
\<close>

theorem reconnect_backoff:
  assumes "isTryingToConnectOrPlay s" and "reconnectAttempts s = 0" and "activePrompts s \<noteq> []"
  shows "retry_delays (disconnections ts s) =
           retry_delays s @ map (\<lambda>n. min (1000 * 2 ^ n) 8000) [1 ..< Suc (min (length ts) 5)] \<and>
         upstream (disconnections ts s) =
           upstream s @ replicate (min (length ts) 5) open_session \<and>
         (ts \<noteq> [] \<and> length ts \<le> 5 \<longrightarrow>
            isTryingToConnectOrPlay (disconnections ts s) \<and>
            playbackState (disconnections ts s) = loading \<and>
            sessionPromise (disconnections ts s) \<and>
            reconnectAttempts (disconnections ts s) = length ts) \<and>
         fatal_errors (disconnections ts s) = fatal_errors s + (if 5 < length ts then 1 else 0) \<and>
         (5 < length ts \<longrightarrow>
            playbackState (disconnections ts s) = stopped \<and>
            \<not> isTryingToConnectOrPlay (disconnections ts s) \<and>
            session (disconnections ts s) = None \<and>
            retry_timer_fired (disconnections ts s) = disconnections ts s)"
proof -
  have le: "reconnectAttempts s \<le> 5" using assms(2) by simp
  note g = disconnections_general [OF assms(1) assms(3) le, of ts]
  note h = disconnections_sessions [OF assms(1) assms(3) le, of ts]
  have r: "\<not> isTryingToConnectOrPlay (disconnections ts s) \<Longrightarrow>
           retry_timer_fired (disconnections ts s) = disconnections ts s"
    by (simp add: retry_timer_fired_def)
  show ?thesis
    using g h r unfolding assms(2) by simp
qed

text \<open>
  Seven disconnections in a row: five retries after 2, 4, 8, 8 and 8 seconds,
  each opening a session, then one fatal error.
\<close>

theorem reconnect_backoff_witness:
  "isTryingToConnectOrPlay
     (new_helper\<lparr>isTryingToConnectOrPlay := True,
        prompts := [(''p'', \<lparr>promptId = ''p'', prompt_text = ''jazz'', weight = 1\<rparr>)]\<rparr>) \<and>
   reconnectAttempts
     (new_helper\<lparr>isTryingToConnectOrPlay := True,
        prompts := [(''p'', \<lparr>promptId = ''p'', prompt_text = ''jazz'', weight = 1\<rparr>)]\<rparr>) = 0 \<and>
   activePrompts
     (new_helper\<lparr>isTryingToConnectOrPlay := True,
        prompts := [(''p'', \<lparr>promptId = ''p'', prompt_text = ''jazz'', weight = 1\<rparr>)]\<rparr>) \<noteq> [] \<and>
   retry_delays (disconnections [0, 1, 2, 3, 4, 5, 6]
     (new_helper\<lparr>isTryingToConnectOrPlay := True,
        prompts := [(''p'', \<lparr>promptId = ''p'', prompt_text = ''jazz'', weight = 1\<rparr>)]\<rparr>))
     = [2000, 4000, 8000, 8000, 8000] \<and>
   fatal_errors (disconnections [0, 1, 2, 3, 4, 5, 6]
     (new_helper\<lparr>isTryingToConnectOrPlay := True,
        prompts := [(''p'', \<lparr>promptId = ''p'', prompt_text = ''jazz'', weight = 1\<rparr>)]\<rparr>)) = 1 \<and>
   upstream (disconnections [0, 1, 2, 3, 4, 5, 6]
     (new_helper\<lparr>isTryingToConnectOrPlay := True,
        prompts := [(''p'', \<lparr>promptId = ''p'', prompt_text = ''jazz'', weight = 1\<rparr>)]\<rparr>))
     = [open_session, open_session, open_session, open_session, open_session] \<and>
   playbackState (disconnections [0, 1, 2, 3, 4, 5, 6]
     (new_helper\<lparr>isTryingToConnectOrPlay := True,
        prompts := [(''p'', \<lparr>promptId = ''p'', prompt_text = ''jazz'', weight = 1\<rparr>)]\<rparr>)) = stopped"
proof -
  let ?s = "new_helper\<lparr>isTryingToConnectOrPlay := True,
        prompts := [(''p'', \<lparr>promptId = ''p'', prompt_text = ''jazz'', weight = 1\<rparr>)]\<rparr>"
  have a: "isTryingToConnectOrPlay ?s" by simp
  have b: "reconnectAttempts ?s = 0" by (simp add: new_helper_def)
  have c: "activePrompts ?s \<noteq> []" by (simp add: activePrompts_def new_helper_def)
  have u: "[1 ..< Suc (min (length [0::real, 1, 2, 3, 4, 5, 6]) 5)] = [1, 2, 3, 4, 5]"
    by (simp add: upt_rec)
  have r: "retry_delays ?s = []" "fatal_errors ?s = 0" "upstream ?s = []"
    by (simp_all add: retry_delays_def fatal_errors_def new_helper_def)
  have m: "replicate (min (length [0::real, 1, 2, 3, 4, 5, 6]) 5) open_session =
             [open_session, open_session, open_session, open_session, open_session]"
    by (simp add: numeral_eq_Suc)
  note t = reconnect_backoff [OF a b c, of "[0, 1, 2, 3, 4, 5, 6]"]
  show ?thesis
    using a b c t unfolding u r m by simp
qed

subsection \<open>The set of filtered prompts\<close>

lemma filteredPrompts_processAudioChunk:
  "filteredPrompts (processAudioChunk c dec now s) = filteredPrompts s"
  by (simp add: processAudioChunk_def schedule_decoded_def start_source_def preroll_def
      resync_def setTimeout_def split: option.splits)

lemma filteredPrompts_onmessage_chunks:
  "filteredPrompts (onmessage_chunks cs s) = filteredPrompts s"
  by (induction cs s rule: onmessage_chunks.induct)
    (simp_all add: filteredPrompts_processAudioChunk)

lemma filteredPrompts_stop: "filteredPrompts (stop now s) = filteredPrompts s"
  by (simp add: stop_def Let_def setPlaybackState_def dispatchEvent_def stopRecording_def)

lemma filteredPrompts_pause: "filteredPrompts (pause now s) = filteredPrompts s"
  by (simp add: pause_def Let_def setPlaybackState_def dispatchEvent_def stopRecording_def)

lemma filteredPrompts_connect: "filteredPrompts (connect s) = filteredPrompts s"
  by (simp add: connect_def)

lemma filteredPrompts_play: "filteredPrompts (play s) = filteredPrompts s"
  by (simp add: play_def Let_def connect_def setPlaybackState_def dispatchEvent_def)

lemma filteredPrompts_handleDisconnection:
  "filteredPrompts (handleDisconnection now s) = filteredPrompts s"
  by (simp add: handleDisconnection_def Let_def filteredPrompts_stop setPlaybackState_def
      dispatchEvent_def setTimeout_def)

lemma filteredPrompts_setWeightedPrompts:
  "filteredPrompts (setWeightedPrompts ps s) = filteredPrompts s"
  by (simp add: setWeightedPrompts_def setTimeout_def split: option.splits)

lemma filteredPrompts_throttle_timer_fired:
  "filteredPrompts (throttle_timer_fired s) = filteredPrompts s"
  by (simp add: throttle_timer_fired_def setWeightedPrompts_body_def Let_def split: option.splits)

lemma filteredPrompts_play_connected:
  "filteredPrompts (play_connected h now s) = filteredPrompts s"
  by (simp add: play_connected_def Let_def filteredPrompts_stop filteredPrompts_setWeightedPrompts)

lemma filteredPrompts_onmessage:
  "filteredPrompts (onmessage e s) =
     (case filteredPrompt e of None \<Rightarrow> filteredPrompts s
      | Some txt \<Rightarrow> insert txt (filteredPrompts s))"
  by (simp add: onmessage_def Let_def filteredPrompts_onmessage_chunks dispatchEvent_def
      split: option.splits)

lemma filteredPrompts_step: "filteredPrompts s \<subseteq> filteredPrompts (step a s)"
  by (cases a)
    (auto simp: filteredPrompts_play filteredPrompts_play_connected filteredPrompts_pause
      filteredPrompts_stop filteredPrompts_connect filteredPrompts_handleDisconnection
      filteredPrompts_onmessage filteredPrompts_setWeightedPrompts
      filteredPrompts_throttle_timer_fired retry_timer_fired_def preroll_timer_fired_def
      setPlaybackState_def dispatchEvent_def startRecording_def stopRecording_def Let_def
      split: option.splits)

text \<open>
  Claim C6, as stated: the set of filtered prompt texts is cleared when a new
  session is opened. It fails: a text filtered during the first session is
  still in the set after \<open>stop()\<close>, \<open>play()\<close> and the opening of a second
  session.
\<close>

theorem filtered_set_cleared_counterexample:
  "upstream (run [Play, Play_connected 1 0,
       Message \<lparr>setupComplete = True, filteredPrompt = Some ''drums'', audioChunks = None\<rparr>,
       Stop 5, Play, Play_connected 2 6]
      (new_helper\<lparr>prompts := [(''p'', \<lparr>promptId = ''p'', prompt_text = ''jazz'', weight = 1\<rparr>)]\<rparr>))
    = [open_session, session_play, session_stop, open_session, session_play] \<and>
   filteredPrompts (run [Play, Play_connected 1 0,
       Message \<lparr>setupComplete = True, filteredPrompt = Some ''drums'', audioChunks = None\<rparr>,
       Stop 5, Play, Play_connected 2 6]
      (new_helper\<lparr>prompts := [(''p'', \<lparr>promptId = ''p'', prompt_text = ''jazz'', weight = 1\<rparr>)]\<rparr>))
    = {''drums''}"
  by (simp add: new_helper_def play_def play_connected_def onmessage_def stop_def connect_def
      activePrompts_def setPlaybackState_def dispatchEvent_def setWeightedPrompts_def
      setTimeout_def Let_def)

text \<open>
  Claim C6, amended. The set of filtered prompt texts grows monotonically over
  the whole life of the helper: no operation removes a text from it, and
  opening a new session (\<open>connect\<close>, and \<open>play\<close> before and after the session
  is obtained) leaves it as it is.
\<close>

theorem filtered_set_never_shrinks:
  "filteredPrompts s \<subseteq> filteredPrompts (run as s) \<and>
   filteredPrompts (connect s) = filteredPrompts s \<and>
   filteredPrompts (play s) = filteredPrompts s \<and>
   filteredPrompts (play_connected h now s) = filteredPrompts s"
proof -
  have "filteredPrompts s \<subseteq> filteredPrompts (run as s)"
  proof (induction as arbitrary: s)
    case Nil
    show ?case by simp
  next
    case (Cons a as)
    have "filteredPrompts s \<subseteq> filteredPrompts (step a s)" by (rule filteredPrompts_step)
    also have "\<dots> \<subseteq> filteredPrompts (run as (step a s))" by (rule Cons.IH)
    finally show ?case by simp
  qed
  then show ?thesis
    by (simp add: filteredPrompts_connect filteredPrompts_play filteredPrompts_play_connected)
qed

theorem filtered_set_never_shrinks_witness:
  "filteredPrompts (new_helper\<lparr>filteredPrompts := {''drums''}\<rparr>) \<subseteq>
     filteredPrompts (run [Connect, Stop 0] (new_helper\<lparr>filteredPrompts := {''drums''}\<rparr>)) \<and>
   filteredPrompts (connect (new_helper\<lparr>filteredPrompts := {''drums''}\<rparr>)) = {''drums''}"
  using filtered_set_never_shrinks [of "new_helper\<lparr>filteredPrompts := {''drums''}\<rparr>" "[Connect, Stop 0]"]
  by simp

subsection \<open>Coalescing of prompt updates\<close>

lemma calls_in_window:
  assumes "throttle_pending s = Some p" and "\<forall>x \<in> set xs. snd x < d"
  shows "calls_at (Some d) xs s =
           setWeightedPrompts_body (last (p # map fst xs)) (s\<lparr>throttle_pending := None\<rparr>)"
  using assms
proof (induction xs arbitrary: s p)
  case Nil
  then show ?case by (simp add: throttle_timer_fired_def)
next
  case (Cons x xs)
  obtain ps t where x: "x = (ps, t)" by (cases x)
  have t: "\<not> d \<le> t" using Cons.prems(2) x by simp
  let ?s = "setWeightedPrompts ps s"
  have e: "?s = s\<lparr>throttle_pending := Some ps\<rparr>"
    using Cons.prems(1) by (simp add: setWeightedPrompts_def)
  have pe: "throttle_pending ?s = Some ps" by (simp add: e)
  have rest: "\<forall>x \<in> set xs. snd x < d" using Cons.prems(2) by simp
  have "calls_at (Some d) (x # xs) s = calls_at (Some d) xs ?s"
    using t by (simp add: x)
  also have "\<dots> = setWeightedPrompts_body (last (ps # map fst xs)) (?s\<lparr>throttle_pending := None\<rparr>)"
    by (rule Cons.IH [OF pe rest])
  also have "\<dots> = setWeightedPrompts_body (last (p # map fst (x # xs))) (s\<lparr>throttle_pending := None\<rparr>)"
    by (simp add: e x)
  finally show ?case .
qed

text \<open>
  Claim C8. For every burst of \<open>N\<close> calls of \<open>setWeightedPrompts\<close> inside one
  window of 150 ms (no window open before the first call, every call earlier
  than 150 ms after the first), exactly one timer is armed and the wrapped
  function runs once, with the payload of the last call: \<open>prompts\<close> becomes
  that payload; with a session open exactly one \<open>set prompts\<close> call goes
  upstream, carrying the active prompts of that payload; with no session open
  nothing goes upstream.
\<close>

theorem burst_coalesced:
  assumes "throttle_pending s = None" and "xs \<noteq> []"
    and "\<forall>x \<in> set xs. snd x < snd (hd xs) + throttle_delay"
  shows "timers (calls_at None xs s) = timers s @ [(throttle_elapsed, throttle_delay)] \<and>
         prompts (calls_at None xs s) = fst (last xs) \<and>
         (session s \<noteq> None \<longrightarrow>
            upstream (calls_at None xs s) =
              upstream s @ [session_setWeightedPrompts
                 (activePrompts (s\<lparr>prompts := fst (last xs)\<rparr>))]) \<and>
         (session s = None \<longrightarrow> upstream (calls_at None xs s) = upstream s)"
proof -
  obtain ps t ys where xs: "xs = (ps, t) # ys" using assms(2) by (cases xs) auto
  let ?s = "setWeightedPrompts ps s"
  have e: "?s = (s\<lparr>throttle_pending := Some ps\<rparr>)\<lparr>timers := timers s @ [(throttle_elapsed, throttle_delay)]\<rparr>"
    using assms(1) by (simp add: setWeightedPrompts_def setTimeout_def)
  have pe: "throttle_pending ?s = Some ps" by (simp add: e)
  have w: "\<forall>x \<in> set ys. snd x < t + throttle_delay" using assms(3) xs by simp
  have l: "last (ps # map fst ys) = fst (last xs)"
    by (simp add: xs last_map)
  have c: "calls_at None xs s =
        setWeightedPrompts_body (fst (last xs)) (?s\<lparr>throttle_pending := None\<rparr>)"
    using calls_in_window [OF pe w] l by (simp add: xs)
  show ?thesis
    unfolding c e
    by (simp add: setWeightedPrompts_body_def Let_def activePrompts_def)
qed

theorem burst_coalesced_witness:
  "throttle_pending (new_helper\<lparr>session := Some 1\<rparr>) = None \<and>
   [([(''a'', \<lparr>promptId = ''a'', prompt_text = ''jazz'', weight = 1\<rparr>)], 0),
    ([(''a'', \<lparr>promptId = ''a'', prompt_text = ''jazz'', weight = 0\<rparr>)], 40),
    ([(''a'', \<lparr>promptId = ''a'', prompt_text = ''jazz'', weight = 0.5\<rparr>)], 149 :: real)] \<noteq> [] \<and>
   upstream (calls_at None
     [([(''a'', \<lparr>promptId = ''a'', prompt_text = ''jazz'', weight = 1\<rparr>)], 0),
      ([(''a'', \<lparr>promptId = ''a'', prompt_text = ''jazz'', weight = 0\<rparr>)], 40),
      ([(''a'', \<lparr>promptId = ''a'', prompt_text = ''jazz'', weight = 0.5\<rparr>)], 149)]
     (new_helper\<lparr>session := Some 1\<rparr>)) =
     [session_setWeightedPrompts [\<lparr>promptId = ''a'', prompt_text = ''jazz'', weight = 0.5\<rparr>]]"
proof -
  let ?s = "new_helper\<lparr>session := Some 1\<rparr>"
  let ?xs = "[([(''a'', \<lparr>promptId = ''a'', prompt_text = ''jazz'', weight = 1\<rparr>)], 0),
    ([(''a'', \<lparr>promptId = ''a'', prompt_text = ''jazz'', weight = 0\<rparr>)], 40),
    ([(''a'', \<lparr>promptId = ''a'', prompt_text = ''jazz'', weight = 0.5\<rparr>)], 149 :: real)]"
  have a: "throttle_pending ?s = None" by (simp add: new_helper_def)
  have b: "?xs \<noteq> []" by simp
  have c: "\<forall>x \<in> set ?xs. snd x < snd (hd ?xs) + throttle_delay"
    by (simp add: throttle_delay_def)
  have s: "session ?s \<noteq> None" by simp
  note t = burst_coalesced [OF a b c]
  show ?thesis
    using a t s by (simp add: activePrompts_def new_helper_def)
qed

end
